theory Spec2Isabelle
  imports Main "HOL-Library.AList" "HOL-Library.Sublist"
begin

section \<open>flarelint/rule.py: rules, the rulebook and rule application\<close>

text \<open>
  The module keeps one process-wide dictionary \<^verbatim>\<open>_rulebook\<close> from file name extensions
  to lists of rule objects. Constructing a rule (\<^verbatim>\<open>rule.Error(...)\<close>,
  \<^verbatim>\<open>rule.Warning(...)\<close>) appends the new object to the lists of its extensions. The
  model passes the state explicitly. Python names that begin with an underscore lose it
  here (\<^verbatim>\<open>_addrule\<close> is \<open>addrule\<close>, \<^verbatim>\<open>_Rule\<close> is \<open>Rule\<close>, \<^verbatim>\<open>_check\<close> is \<open>check\<close>).
\<close>

subsection \<open>Exceptions\<close>

text \<open>
  Every exception the modelled code can raise is a value. \<open>Raised\<close> stands for any
  exception thrown by user code (a predicate of a rule, the top-level code of a rule
  module).
\<close>

datatype error =
    AssertionError
  | KeyError string
  | FileExistsError
  | FileNotFoundError
  | IsADirectoryError
  | SameFileError
  | Raised string

subsection \<open>Severity levels\<close>

text \<open>
  \<^verbatim>\<open>resources.ERROR_LEVEL\<close> and \<^verbatim>\<open>resources.WARNING_LEVEL\<close> are constants of the module
  \<^verbatim>\<open>flarelint.resources\<close>, whose values are not part of the sources at hand. They are
  taken as a parameter: a record of the two constants, of an arbitrary type \<open>'l\<close>.
  The class attribute \<^verbatim>\<open>_LEVEL\<close> of the base class is a string literal, so a level is
  either that string or one of the two constants.
\<close>

record 'l resources =
  ERROR_LEVEL :: 'l
  WARNING_LEVEL :: 'l

datatype 'l level = Str string | Const 'l

text \<open>The three classes: \<^verbatim>\<open>_Rule\<close> and its subclasses \<^verbatim>\<open>Error\<close> and \<^verbatim>\<open>Warning\<close>.\<close>

datatype cls = Rule_cls | Error_cls | Warning_cls

fun LEVEL :: "'l resources \<Rightarrow> cls \<Rightarrow> 'l level" where
  "LEVEL res Rule_cls = Str ''Instantiate from rule.Error or rule.Warning instead.''"
| "LEVEL res Error_cls = Const (ERROR_LEVEL res)"
| "LEVEL res Warning_cls = Const (WARNING_LEVEL res)"

subsection \<open>Rule objects and results\<close>

text \<open>
  A predicate is a Python callable on a node: it returns (a value whose truth value is)
  a boolean, or raises. The type \<open>'n\<close> of nodes is left open (class \<^verbatim>\<open>Node\<close> of
  \<^verbatim>\<open>flarenode.py\<close>).
\<close>

type_synonym 'n predicate = "'n \<Rightarrow> error + bool"

record 'n Rule =
  rule_cls :: cls
  rule_match :: "'n predicate"
  rule_test :: "'n predicate"
  rule_message :: string

record ('n, 'l) Result =
  path :: string
  level :: "'l level"
  node :: 'n
  message :: string

text \<open>
  \<^verbatim>\<open>
  def apply(self, path, node):
      if self.match(node) and not self.test(node):
          return Result(path, self._LEVEL, node, self.message)
      return None
  \<close>
  \<^verbatim>\<open>and\<close> evaluates its right operand only when the left one is true; an exception
  of either predicate leaves \<^verbatim>\<open>apply\<close>.
\<close>

definition Rule_apply ::
  "'l resources \<Rightarrow> 'n Rule \<Rightarrow> string \<Rightarrow> 'n \<Rightarrow> error + ('n, 'l) Result option" where
  "Rule_apply res self p n =
     (case rule_match self n of
        Inl e \<Rightarrow> Inl e
      | Inr False \<Rightarrow> Inr None
      | Inr True \<Rightarrow>
          (case rule_test self n of
             Inl e \<Rightarrow> Inl e
           | Inr True \<Rightarrow> Inr None
           | Inr False \<Rightarrow>
               Inr (Some \<lparr>path = p, level = LEVEL res (rule_cls self), node = n,
                          message = rule_message self\<rparr>)))"

subsection \<open>The rulebook\<close>

text \<open>
  A Python dictionary keeps its keys in insertion order: an association list with
  distinct keys. \<open>AList.update\<close> replaces the value of a key that is present, in place,
  and adds a new key at the end, as \<^verbatim>\<open>d[k] = v\<close> does. The rulebook holds references to
  rule objects; the type \<open>'r\<close> of references is left open here.
  \<^verbatim>\<open>
  def _addrule(extensions, rule):
      for e in extensions:
          if e not in _rulebook:
              _rulebook[e] = []
          _rulebook[e].append(rule)
  \<close>
\<close>

type_synonym 'r rulebook = "(string \<times> 'r list) list"

definition append_at :: "string \<Rightarrow> 'r \<Rightarrow> 'r rulebook \<Rightarrow> 'r rulebook" where
  \<comment> \<open>\<^verbatim>\<open>_rulebook[e].append(rule)\<close>, for a key that is present\<close>
  "append_at e rule rb =
     (case map_of rb e of
        None \<Rightarrow> rb
      | Some rs \<Rightarrow> AList.update e (rs @ [rule]) rb)"

fun addrule :: "string list \<Rightarrow> 'r \<Rightarrow> 'r rulebook \<Rightarrow> 'r rulebook" where
  "addrule [] rule rb = rb"
| "addrule (e # extensions) rule rb =
     addrule extensions rule
       (append_at e rule (if map_of rb e = None then AList.update e [] rb else rb))"

text \<open>
  \<^verbatim>\<open>
  def getrules(extension):
      return _rulebook.get(extension, None)
  \<close>
\<close>

definition getrules :: "'r rulebook \<Rightarrow> string \<Rightarrow> 'r list option" where
  "getrules rb extension = map_of rb extension"

subsection \<open>Rule modules and the state of the process\<close>

text \<open>
  A rule module is Python source that is executed at load time. What its top-level code
  does to the rulebook is a sequence of rule declarations, which stops where a statement
  raises: the model of a module is that sequence (see
  \<^verbatim>\<open>rules/flarelint_img_callout_hardformat.py\<close>, one \<^verbatim>\<open>rule.Warning(...)\<close>).
\<close>

datatype 'n stmt =
    Declare cls "string list" "'n predicate" "'n predicate" string
  | Raise error

type_synonym 'n module = "'n stmt list"

text \<open>
  The part of the file system the module reads and writes. A path is the list of the
  parts that \<^verbatim>\<open>os.path.join\<close> joins, so \<^verbatim>\<open>os.path.join(d, name)\<close> is \<open>d @ [name]\<close> and
  \<^verbatim>\<open>os.path.basename\<close> is \<open>last\<close>. At a path there is nothing, something that is not a
  directory, or a directory with its listing: the names in it, in the order in which the
  system lists them, each a regular file with its content or a subdirectory.
\<close>

type_synonym path = "string list"

datatype 'n entry = Regular "'n module" | Folder

datatype 'n fsnode = NotDir | Dir "(string \<times> 'n entry) list"

datatype os_name = Posix | Windows

text \<open>
  Rule objects live in a store; a reference is the position of the object in the
  store, so two objects built from the same arguments are still two objects.
  \<open>file_dir\<close> is \<^verbatim>\<open>os.path.split(__file__)[0]\<close>.

  \<open>expand\<close> is a parameter of the model: for a directory path with wildcard characters,
  the directories that \<^verbatim>\<open>glob\<close> finds for it in the current file system. They depend on
  the directories above the path, which the file system of the model does not hold.
\<close>

type_synonym ref = nat

record 'n world =
  platform :: os_name
  environ :: "(string \<times> string) list"
  file_dir :: path
  fs :: "(path \<times> 'n fsnode) list"
  expand :: "(path \<times> 'n fsnode) list \<Rightarrow> path \<Rightarrow> path list"
  objects :: "'n Rule list"
  rulebook :: "ref rulebook"

text \<open>
  \<^verbatim>\<open>
  def __init__(self, extensions, match, test, message):
      self.match = match
      self.test = test
      self.message = message
      _addrule(extensions, self)
  \<close>
  Returns the reference to the new object with the new state.
\<close>

definition Rule_init ::
  "cls \<Rightarrow> string list \<Rightarrow> 'n predicate \<Rightarrow> 'n predicate \<Rightarrow> string \<Rightarrow> 'n world
     \<Rightarrow> ref \<times> 'n world" where
  "Rule_init c extensions m t msg w =
     (let self = length (objects w);
          obj = \<lparr>rule_cls = c, rule_match = m, rule_test = t, rule_message = msg\<rparr>
      in (self, w\<lparr>objects := objects w @ [obj],
                  rulebook := addrule extensions self (rulebook w)\<rparr>))"

definition Error ::
  "string list \<Rightarrow> 'n predicate \<Rightarrow> 'n predicate \<Rightarrow> string \<Rightarrow> 'n world \<Rightarrow> ref \<times> 'n world" where
  "Error = Rule_init Error_cls"

definition Warning ::
  "string list \<Rightarrow> 'n predicate \<Rightarrow> 'n predicate \<Rightarrow> string \<Rightarrow> 'n world \<Rightarrow> ref \<times> 'n world" where
  "Warning = Rule_init Warning_cls"

fun exec_stmt :: "'n stmt \<Rightarrow> 'n world \<Rightarrow> error option \<times> 'n world" where
  "exec_stmt (Declare c extensions m t msg) w = (None, snd (Rule_init c extensions m t msg w))"
| "exec_stmt (Raise e) w = (Some e, w)"

fun exec_module :: "'n module \<Rightarrow> 'n world \<Rightarrow> error option \<times> 'n world" where
  "exec_module [] w = (None, w)"
| "exec_module (s # ss) w =
     (case exec_stmt s w of
        (Some e, w') \<Rightarrow> (Some e, w')
      | (None, w') \<Rightarrow> exec_module ss w')"

subsection \<open>File name patterns\<close>

text \<open>
  \<^verbatim>\<open>glob.glob\<close> matches the names of a directory against a shell pattern with
  \<^verbatim>\<open>fnmatch\<close>: \<^verbatim>\<open>*\<close> matches any string, \<^verbatim>\<open>?\<close> any character, \<^verbatim>\<open>[seq]\<close> any character
  of \<^verbatim>\<open>seq\<close>, \<^verbatim>\<open>[!seq]\<close> any character not in \<^verbatim>\<open>seq\<close>; a \<^verbatim>\<open>[\<close> that is never closed
  stands for itself. Character ranges (\<^verbatim>\<open>a-z\<close>) are not modelled: the patterns of
  \<^verbatim>\<open>rule.py\<close> have none.
\<close>

datatype item = Star | AnyChar | Class bool string | Lit char

fun closing :: "string \<Rightarrow> (string \<times> string) option" where
  "closing [] = None"
| "closing (c # cs) =
     (if c = CHR '']'' then Some ([], cs)
      else (case closing cs of None \<Rightarrow> None | Some (s, r) \<Rightarrow> Some (c # s, r)))"

definition bracket :: "string \<Rightarrow> (bool \<times> string \<times> string) option" where
  \<comment> \<open>the text after a \<^verbatim>\<open>[\<close>: negated or not, the members, the text after the \<^verbatim>\<open>]\<close>\<close>
  "bracket cs =
     (let neg = (take 1 cs = ''!'');
          cs1 = (if neg then drop 1 cs else cs);
          lead = (take 1 cs1 = '']'');
          cs2 = (if lead then drop 1 cs1 else cs1)
      in case closing cs2 of
           None \<Rightarrow> None
         | Some (s, r) \<Rightarrow> Some (neg, (if lead then '']'' else []) @ s, r))"

function translate :: "string \<Rightarrow> item list" where
  "translate [] = []"
| "translate (c # cs) =
     (if c = CHR ''*'' then Star # translate cs
      else if c = CHR ''?'' then AnyChar # translate cs
      else if c = CHR ''['' then
        (case bracket cs of
           None \<Rightarrow> Lit c # translate cs
         | Some (neg, members, rest) \<Rightarrow> Class neg members # translate rest)
      else Lit c # translate cs)"
  by pat_completeness auto

lemma closing_shorter: "closing cs = Some (s, r) \<Longrightarrow> length r < length cs"
  by (induction cs arbitrary: s r) (auto split: if_splits option.splits)

lemma bracket_shorter: "bracket cs = Some (neg, members, rest) \<Longrightarrow> length rest < Suc (length cs)"
  by (auto simp: bracket_def Let_def split: option.splits if_splits dest!: closing_shorter)

termination translate
  by (relation "measure length") (auto dest: bracket_shorter)

fun item_ok :: "item \<Rightarrow> char \<Rightarrow> bool" where
  "item_ok Star c = True"
| "item_ok AnyChar c = True"
| "item_ok (Class neg members) c = (if neg then c \<notin> set members else c \<in> set members)"
| "item_ok (Lit d) c = (c = d)"

fun matches :: "item list \<Rightarrow> string \<Rightarrow> bool" where
  "matches [] s = (s = [])"
| "matches (Star # ps) [] = matches ps []"
| "matches (Star # ps) (c # s) = (matches ps (c # s) \<or> matches (Star # ps) s)"
| "matches (p # ps) [] = False"
| "matches (p # ps) (c # s) = (item_ok p c \<and> matches ps s)"

text \<open>
  \<^verbatim>\<open>os.path.normcase\<close>: the identity on POSIX; on Windows it turns \<^verbatim>\<open>/\<close> into
  \<^verbatim>\<open>\\<close> and letters into lower case (the ASCII letters here).
\<close>

definition lower :: "char \<Rightarrow> char" where
  "lower c =
     (case map_of (zip ''ABCDEFGHIJKLMNOPQRSTUVWXYZ'' ''abcdefghijklmnopqrstuvwxyz'') c of
        None \<Rightarrow> c
      | Some d \<Rightarrow> d)"

fun normcase :: "os_name \<Rightarrow> string \<Rightarrow> string" where
  "normcase Posix s = s"
| "normcase Windows s = map (\<lambda>c. lower (if c = CHR ''/'' then CHR 0x5C else c)) s"

text \<open>
  \<^verbatim>\<open>fnmatch.filter(names, pat)\<close> normalises the case of the pattern, and of the names
  unless \<^verbatim>\<open>os.path\<close> is \<^verbatim>\<open>posixpath\<close>.
\<close>

definition fnmatch_filter :: "os_name \<Rightarrow> string list \<Rightarrow> string \<Rightarrow> string list" where
  "fnmatch_filter os names pat =
     filter (\<lambda>name. matches (translate (normcase os pat)) (normcase os name)) names"

definition ishidden :: "string \<Rightarrow> bool" where
  "ishidden s = (take 1 s = ''.'')"

text \<open>
  The names of one directory that match a pattern (\<^verbatim>\<open>glob._glob1\<close>): names that begin
  with a dot are left out unless the pattern begins with one.
\<close>

definition glob1 :: "os_name \<Rightarrow> string list \<Rightarrow> string \<Rightarrow> string list" where
  "glob1 os names pat =
     fnmatch_filter os (if ishidden pat then names else filter (\<lambda>x. \<not> ishidden x) names) pat"

definition listdir :: "'n world \<Rightarrow> path \<Rightarrow> string list" where
  "listdir w dir = (case map_of (fs w) dir of Some (Dir es) \<Rightarrow> map fst es | _ \<Rightarrow> [])"

text \<open>
  \<^verbatim>\<open>glob.glob(os.path.join(dir, pat))\<close>, for a pattern \<open>pat\<close> with a wildcard, as the two
  patterns of \<^verbatim>\<open>rule.py\<close> are. The call does not escape the directory part: \<^verbatim>\<open>glob\<close> reads
  \<^verbatim>\<open>*\<close>, \<^verbatim>\<open>?\<close> and \<^verbatim>\<open>[\<close> there as wildcards too (\<^verbatim>\<open>glob.has_magic\<close>) and then looks into
  every directory that the directory part matches, not into the directory of that name.
  The result is the matching names of each of these directories, joined to it; a path
  that is not a directory has no names.
\<close>

definition has_magic :: "string \<Rightarrow> bool" where
  "has_magic s = (\<exists>c \<in> set s. c = CHR ''*'' \<or> c = CHR ''?'' \<or> c = CHR ''['')"

definition has_magic_dir :: "path \<Rightarrow> bool" where
  "has_magic_dir dir = (\<exists>part \<in> set dir. has_magic part)"

definition glob_dirs :: "'n world \<Rightarrow> path \<Rightarrow> path list" where
  "glob_dirs w dir = (if has_magic_dir dir then expand w (fs w) dir else [dir])"

definition glob :: "'n world \<Rightarrow> path \<Rightarrow> string \<Rightarrow> path list" where
  "glob w dir pat =
     concat (map (\<lambda>d. map (\<lambda>name. d @ [name]) (glob1 (platform w) (listdir w d) pat))
               (glob_dirs w dir))"

definition RULE_MODULE_PATTERN :: string where
  "RULE_MODULE_PATTERN = ''[!_][!_]*.py''"

subsection \<open>File operations\<close>

definition isdir :: "'n world \<Rightarrow> path \<Rightarrow> bool" where
  "isdir w p = (case map_of (fs w) p of Some (Dir es) \<Rightarrow> True | _ \<Rightarrow> False)"

text \<open>
  \<^verbatim>\<open>os.makedirs(p, exist_ok=True)\<close>: nothing to do for a directory, an error when
  something else has the name, an empty directory otherwise.
\<close>

definition makedirs :: "path \<Rightarrow> 'n world \<Rightarrow> error option \<times> 'n world" where
  "makedirs p w =
     (case map_of (fs w) p of
        None \<Rightarrow> (None, w\<lparr>fs := AList.update p (Dir []) (fs w)\<rparr>)
      | Some (Dir es) \<Rightarrow> (None, w)
      | Some NotDir \<Rightarrow> (Some FileExistsError, w))"

text \<open>Opening the file at a path for reading: the file is found in its directory.\<close>

definition read_file :: "'n world \<Rightarrow> path \<Rightarrow> error + 'n module" where
  "read_file w p =
     (case map_of (fs w) (butlast p) of
        Some (Dir es) \<Rightarrow>
          (case map_of es (last p) of
             Some (Regular c) \<Rightarrow> Inr c
           | Some Folder \<Rightarrow> Inl IsADirectoryError
           | None \<Rightarrow> Inl FileNotFoundError)
      | _ \<Rightarrow> Inl FileNotFoundError)"

text \<open>
  \<^verbatim>\<open>shutil.copy(src, dst)\<close>: when \<open>dst\<close> is a directory the target is the file of the
  same name in it, replaced when it exists; copying a file onto itself is an error.
\<close>

definition shutil_copy :: "path \<Rightarrow> path \<Rightarrow> 'n world \<Rightarrow> error option \<times> 'n world" where
  "shutil_copy src dst w =
     (case map_of (fs w) dst of
        Some (Dir es) \<Rightarrow>
          (if butlast src = dst then (Some SameFileError, w)
           else
             (case read_file w src of
                Inl e \<Rightarrow> (Some e, w)
              | Inr c \<Rightarrow>
                  (case map_of es (last src) of
                     Some Folder \<Rightarrow> (Some IsADirectoryError, w)
                   | _ \<Rightarrow>
                       (None, w\<lparr>fs := AList.update dst
                                        (Dir (AList.update (last src) (Regular c) es)) (fs w)\<rparr>))))
      | _ \<Rightarrow>
          (case read_file w src of
             Inl e \<Rightarrow> (Some e, w)
           | Inr c \<Rightarrow> (None, w\<lparr>fs := AList.update dst NotDir (fs w)\<rparr>)))"

subsection \<open>The bootstrap check and the loader\<close>

text \<open>
  \<^verbatim>\<open>
  def _check(user, default, verbose=False):
      if not (os.path.isdir(user) and glob.glob(os.path.join(user, _RULE_MODULE_PATTERN))):
          if verbose:
              print(resources.PROGRESS_RULES_DEFAULT)
          os.makedirs(user, exist_ok=True)
          for src in glob.glob(os.path.join(default, "*.py")):
              shutil.copy(src, user)
      assert os.path.isdir(user)
  \<close>
  What is printed is not modelled. The loop stops at the first copy that raises.
\<close>

fun copy_each :: "path list \<Rightarrow> path \<Rightarrow> 'n world \<Rightarrow> error option \<times> 'n world" where
  "copy_each [] user w = (None, w)"
| "copy_each (src # srcs) user w =
     (case shutil_copy src user w of
        (Some e, w') \<Rightarrow> (Some e, w')
      | (None, w') \<Rightarrow> copy_each srcs user w')"

definition seeded :: "'n world \<Rightarrow> path \<Rightarrow> bool" where
  \<comment> \<open>the condition of \<^verbatim>\<open>_check\<close>: a directory, and the glob of rule modules is not empty\<close>
  "seeded w user = (isdir w user \<and> glob w user RULE_MODULE_PATTERN \<noteq> [])"

definition check :: "path \<Rightarrow> path \<Rightarrow> bool \<Rightarrow> 'n world \<Rightarrow> error option \<times> 'n world" where
  "check user dflt verbose w =
     (case
        (if \<not> seeded w user then
           (case makedirs user w of
              (Some e, w1) \<Rightarrow> (Some e, w1)
            | (None, w1) \<Rightarrow> copy_each (glob w1 dflt ''*.py'') user w1)
         else (None, w))
      of
        (Some e, w2) \<Rightarrow> (Some e, w2)
      | (None, w2) \<Rightarrow> if isdir w2 user then (None, w2) else (Some AssertionError, w2))"

text \<open>
  \<^verbatim>\<open>
  def load(verbose=False):
      userpath = os.path.join(os.environ["APPDATA"], "FlareLint")
      defaultpath = os.path.join(os.path.split(__file__)[0], "rules")
      _check(userpath, defaultpath, verbose)
      rulemodules = glob.glob(os.path.join(userpath, _RULE_MODULE_PATTERN))
      for f in rulemodules:
          modulefile = os.path.basename(f)
          modulename = os.path.splitext(modulefile)[0]
          spec = importlib.util.spec_from_file_location(modulename,
                     os.path.join(userpath, modulefile))
          spec.loader.exec_module(importlib.util.module_from_spec(spec))
      assert _rulebook
  \<close>
  Executing a module reads the file and runs its statements; the name of the module does
  not matter to the rulebook. An \<^verbatim>\<open>assert\<close> raises \<^verbatim>\<open>AssertionError\<close> (Python without
  \<^verbatim>\<open>-O\<close>). A dictionary is true when it is not empty.
\<close>

fun exec_each :: "path list \<Rightarrow> path \<Rightarrow> 'n world \<Rightarrow> error option \<times> 'n world" where
  "exec_each [] userpath w = (None, w)"
| "exec_each (f # rulemodules) userpath w =
     (case read_file w (userpath @ [last f]) of
        Inl e \<Rightarrow> (Some e, w)
      | Inr m \<Rightarrow>
          (case exec_module m w of
             (Some e, w') \<Rightarrow> (Some e, w')
           | (None, w') \<Rightarrow> exec_each rulemodules userpath w'))"

definition userpath_of :: "string \<Rightarrow> path" where
  "userpath_of appdata = [appdata, ''FlareLint'']"

definition defaultpath_of :: "'n world \<Rightarrow> path" where
  "defaultpath_of w = file_dir w @ [''rules'']"

definition load :: "bool \<Rightarrow> 'n world \<Rightarrow> error option \<times> 'n world" where
  "load verbose w =
     (case map_of (environ w) ''APPDATA'' of
        None \<Rightarrow> (Some (KeyError ''APPDATA''), w)
      | Some appdata \<Rightarrow>
          (case check (userpath_of appdata) (defaultpath_of w) verbose w of
             (Some e, w1) \<Rightarrow> (Some e, w1)
           | (None, w1) \<Rightarrow>
               (case exec_each (glob w1 (userpath_of appdata) RULE_MODULE_PATTERN)
                       (userpath_of appdata) w1 of
                  (Some e, w2) \<Rightarrow> (Some e, w2)
                | (None, w2) \<Rightarrow>
                    if rulebook w2 \<noteq> [] then (None, w2) else (Some AssertionError, w2))))"

subsection \<open>Sequences of registrations\<close>

text \<open>
  The rulebook after a sequence of calls of \<^verbatim>\<open>_addrule\<close>, in the order of the calls, and
  the rules that the calls registered under one extension: each rule once for every
  occurrence of the extension in its list, in the order of the calls.
\<close>

fun registrations :: "(string list \<times> 'r) list \<Rightarrow> 'r rulebook \<Rightarrow> 'r rulebook" where
  "registrations [] rb = rb"
| "registrations ((extensions, rule) # regs) rb = registrations regs (addrule extensions rule rb)"

definition registered_under :: "string \<Rightarrow> (string list \<times> 'r) list \<Rightarrow> 'r list" where
  "registered_under e regs = concat (map (\<lambda>(extensions, rule). replicate (count_list extensions e) rule) regs)"

text \<open>
  Every reference in the rulebook is a reference to an object of the store. This holds
  in a fresh process and after every construction of a rule.
\<close>

definition refs_ok :: "'n world \<Rightarrow> bool" where
  "refs_ok w = (\<forall>(e, rs) \<in> set (rulebook w). \<forall>r \<in> set rs. r < length (objects w))"

section \<open>Example data\<close>

text \<open>
  A fresh process on Windows: no rule object, an empty rulebook, an empty file system,
  in which no directory path with wildcards matches a directory.
\<close>

definition w0 :: "'n world" where
  "w0 = \<lparr>platform = Windows, environ = [(''APPDATA'', ''C:/AppData'')],
         file_dir = [''C:/flarelint''], fs = [], expand = (\<lambda>tree dir. []),
         objects = [], rulebook = []\<rparr>"

text \<open>
  Nodes for the examples are pairs of an element name and whether the element has an
  \<^verbatim>\<open>h1\<close> child. The rule of the module's documentation: a topic body starts with an
  \<^verbatim>\<open>h1\<close> element.
\<close>

definition levels :: "string resources" where
  "levels = \<lparr>ERROR_LEVEL = ''error'', WARNING_LEVEL = ''warning''\<rparr>"

definition is_body :: "(string \<times> bool) predicate" where
  "is_body n = Inr (fst n = ''body'')"

definition has_h1 :: "(string \<times> bool) predicate" where
  "has_h1 n = Inr (snd n)"

definition body_h1 :: "(string \<times> bool) Rule" where
  "body_h1 = \<lparr>rule_cls = Error_cls, rule_match = (\<lambda>n. Inr (fst n = ''body'')),
      rule_test = (\<lambda>n. Inr (snd n)), rule_message = ''Missing h1 in topic body.''\<rparr>"

text \<open>The state after one rule was declared for tables of contents and topics.\<close>

definition w_first :: "(string \<times> bool) world" where
  "w_first = snd (Warning [''.fltoc'', ''.htm''] is_body has_h1 ''first'' w0)"

text \<open>
  Directories for the examples: the user's rule folder \<^verbatim>\<open>%APPDATA%\FlareLint\<close> and the
  folder \<^verbatim>\<open>rules\<close> beside the module.
\<close>

definition userdir :: path where
  "userdir = [''C:/AppData'', ''FlareLint'']"

definition defaultdir :: path where
  "defaultdir = [''C:/flarelint'', ''rules'']"

text \<open>A user folder whose two files are not matched by the pattern of rule modules.\<close>

definition w_short :: "(string \<times> bool) world" where
  "w_short = w0\<lparr>fs := [(userdir, Dir [(''x.py'', Regular []), (''a_rule.py'', Regular [])])]\<rparr>"

text \<open>
  A fresh install: the default folder holds one rule module and a helper file, the user
  folder does not exist. Then the state after the bootstrap check, and after the load.
\<close>

definition callout :: "(string \<times> bool) module" where
  "callout = [Declare Warning_cls [''.props''] is_body has_h1 ''Custom formatting in a callout.'']"

definition w_install :: "(string \<times> bool) world" where
  "w_install = w0\<lparr>fs := [(defaultdir, Dir [(''callout.py'', Regular callout), (''_util.py'', Regular [])])]\<rparr>"

definition w_seeded :: "(string \<times> bool) world" where
  "w_seeded = w0\<lparr>fs := [(defaultdir, Dir [(''callout.py'', Regular callout), (''_util.py'', Regular [])]),
                         (userdir, Dir [(''callout.py'', Regular callout), (''_util.py'', Regular [])])]\<rparr>"

definition w_loaded :: "(string \<times> bool) world" where
  "w_loaded = w_seeded\<lparr>objects := [\<lparr>rule_cls = Warning_cls, rule_match = is_body, rule_test = has_h1,
                                       rule_message = ''Custom formatting in a callout.''\<rparr>],
                         rulebook := [(''.props'', [0])]\<rparr>"




section \<open>Properties\<close>

subsection \<open>Rule application\<close>

text \<open>
  C1. When \<open>match\<close> and \<open>test\<close> both hold of the node, \<open>apply\<close> returns none. When
  \<open>match\<close> holds and \<open>test\<close> fails, \<open>apply\<close> returns a result with the given path, the
  node that was matched, the level of the rule's class and the rule's message; for a
  rule built by \<open>Error\<close> the level is \<open>ERROR_LEVEL\<close>, for one built by \<open>Warning\<close> it is
  \<open>WARNING_LEVEL\<close>.
\<close>

theorem apply_matched:
  "(rule_match r n = Inr True \<and> rule_test r n = Inr True \<longrightarrow> Rule_apply res r p n = Inr None) \<and>
   (rule_match r n = Inr True \<and> rule_test r n = Inr False \<longrightarrow>
      Rule_apply res r p n =
        Inr (Some \<lparr>path = p, level = LEVEL res (rule_cls r), node = n, message = rule_message r\<rparr>)) \<and>
   (Error es m t msg w = (self, w') \<and> m n = Inr True \<and> t n = Inr False \<longrightarrow>
      Rule_apply res (objects w' ! self) p n =
        Inr (Some \<lparr>path = p, level = Const (ERROR_LEVEL res), node = n, message = msg\<rparr>)) \<and>
   (Warning es m t msg w = (self, w') \<and> m n = Inr True \<and> t n = Inr False \<longrightarrow>
      Rule_apply res (objects w' ! self) p n =
        Inr (Some \<lparr>path = p, level = Const (WARNING_LEVEL res), node = n, message = msg\<rparr>))"
  by (auto simp: Rule_apply_def Error_def Warning_def Rule_init_def Let_def)

theorem apply_matched_witness:
  "(rule_match body_h1 (''body'', True) = Inr True \<and>
    rule_test body_h1 (''body'', True) = Inr True \<and>
    Rule_apply levels body_h1 ''a.htm'' (''body'', True) = Inr None) \<and>
   (rule_match body_h1 (''body'', False) = Inr True \<and>
    rule_test body_h1 (''body'', False) = Inr False \<and>
    Rule_apply levels body_h1 ''a.htm'' (''body'', False) =
      Inr (Some \<lparr>path = ''a.htm'', level = Const ''error'', node = (''body'', False),
                 message = ''Missing h1 in topic body.''\<rparr>)) \<and>
   (is_body (''body'', False) = Inr True \<and> has_h1 (''body'', False) = Inr False \<and>
    Rule_apply levels
      (objects (snd (Error [''.htm''] is_body has_h1 ''no h1'' w0))
         ! fst (Error [''.htm''] is_body has_h1 ''no h1'' w0)) ''a.htm'' (''body'', False) =
      Inr (Some \<lparr>path = ''a.htm'', level = Const ''error'', node = (''body'', False),
                 message = ''no h1''\<rparr>) \<and>
    Rule_apply levels
      (objects (snd (Warning [''.htm''] is_body has_h1 ''no h1'' w0))
         ! fst (Warning [''.htm''] is_body has_h1 ''no h1'' w0)) ''a.htm'' (''body'', False) =
      Inr (Some \<lparr>path = ''a.htm'', level = Const ''warning'', node = (''body'', False),
                 message = ''no h1''\<rparr>))"
proof -
  have m: "is_body (''body'', False) = Inr True" and t: "has_h1 (''body'', False) = Inr False"
    by (simp_all add: is_body_def has_h1_def)
  have e: "Error [''.htm''] is_body has_h1 ''no h1'' (w0 :: (string \<times> bool) world) =
      (fst (Error [''.htm''] is_body has_h1 ''no h1'' w0), snd (Error [''.htm''] is_body has_h1 ''no h1'' w0))"
    and w: "Warning [''.htm''] is_body has_h1 ''no h1'' (w0 :: (string \<times> bool) world) =
      (fst (Warning [''.htm''] is_body has_h1 ''no h1'' w0), snd (Warning [''.htm''] is_body has_h1 ''no h1'' w0))"
    by simp_all
  show ?thesis
    using apply_matched [where r = body_h1 and n = "(''body'', True)" and res = levels
          and p = "''a.htm''" and w = "w0 :: (string \<times> bool) world"]
      apply_matched [where r = body_h1 and n = "(''body'', False)" and res = levels
          and p = "''a.htm''" and es = "[''.htm'']" and m = is_body and t = has_h1
          and msg = "''no h1''" and w = w0
          and self = "fst (Error [''.htm''] is_body has_h1 ''no h1'' w0)"
          and w' = "snd (Error [''.htm''] is_body has_h1 ''no h1'' w0)"]
      apply_matched [where r = body_h1 and n = "(''body'', False)" and res = levels
          and p = "''a.htm''" and es = "[''.htm'']" and m = is_body and t = has_h1
          and msg = "''no h1''" and w = w0
          and self = "fst (Warning [''.htm''] is_body has_h1 ''no h1'' w0)"
          and w' = "snd (Warning [''.htm''] is_body has_h1 ''no h1'' w0)"]
      m t e w
    by (simp add: body_h1_def levels_def)
qed

text \<open>
  C2. When \<open>match\<close> fails, \<open>apply\<close> returns none whatever the test predicate is, also
  one that would raise: the test is not evaluated.
\<close>

theorem apply_unmatched:
  "rule_match r n = Inr False \<Longrightarrow> Rule_apply res (r\<lparr>rule_test := t\<rparr>) p n = Inr None"
  by (simp add: Rule_apply_def)

theorem apply_unmatched_witness:
  "rule_match body_h1 (''div'', False) = Inr False \<and>
   Rule_apply \<lparr>ERROR_LEVEL = ''error'', WARNING_LEVEL = ''warning''\<rparr>
     (body_h1\<lparr>rule_test := (\<lambda>n. Inl (Raised ''boom''))\<rparr>) ''a.htm'' (''div'', False) = Inr None"
proof -
  have m: "rule_match body_h1 (''div'', False) = Inr False"
    by (simp add: body_h1_def)
  show ?thesis
    using m apply_unmatched [OF m] by simp
qed

subsection \<open>The rulebook\<close>

text \<open>What a lookup gives after one registration, and after a sequence of them.\<close>

lemma map_of_step:
  "map_of (append_at e r (if map_of rb e = None then AList.update e [] rb else rb)) x =
     (if x = e then Some ((case map_of rb e of None \<Rightarrow> [] | Some rs \<Rightarrow> rs) @ [r]) else map_of rb x)"
  by (auto simp: append_at_def AList.update_conv' split: option.splits)

lemma map_of_addrule:
  "map_of (addrule es r rb) x =
     (if x \<in> set es
      then Some ((case map_of rb x of None \<Rightarrow> [] | Some rs \<Rightarrow> rs) @ replicate (count_list es x) r)
      else map_of rb x)"
proof (induction es arbitrary: rb)
  case Nil
  show ?case by simp
next
  case (Cons e es)
  show ?case
    unfolding addrule.simps Cons.IH map_of_step
    by (auto simp: replicate_append_same)
qed

lemma count_list_0: "x \<notin> set xs \<Longrightarrow> count_list xs x = 0"
  by (induction xs) auto

lemma registered_under_Nil: "(\<forall>(es, r) \<in> set regs. e \<notin> set es) \<Longrightarrow> registered_under e regs = []"
  by (induction regs) (auto simp: registered_under_def count_list_0)

lemma registered_under_Cons:
  "registered_under e ((es, r) # regs) = replicate (count_list es e) r @ registered_under e regs"
  by (simp add: registered_under_def)

lemma map_of_registrations:
  "map_of (registrations regs rb) e =
     (if \<forall>(es, r) \<in> set regs. e \<notin> set es then map_of rb e
      else Some ((case map_of rb e of None \<Rightarrow> [] | Some rs \<Rightarrow> rs) @ registered_under e regs))"
proof (induction regs arbitrary: rb)
  case Nil
  show ?case by simp
next
  case (Cons reg regs)
  obtain es r where reg: "reg = (es, r)" by (cases reg)
  show ?case
    unfolding reg registrations.simps Cons.IH map_of_addrule registered_under_Cons
    by (auto simp: count_list_0 registered_under_Nil)
qed

lemma registered_under_empty_iff:
  "registered_under e regs = [] \<longleftrightarrow> (\<forall>(es, r) \<in> set regs. e \<notin> set es)"
proof (induction regs)
  case Nil
  show ?case by (simp add: registered_under_def)
next
  case (Cons reg regs)
  obtain es r where reg: "reg = (es, r)" by (cases reg)
  have "count_list es e = 0 \<longleftrightarrow> e \<notin> set es"
    by (simp add: count_list_0_iff)
  with Cons show ?case
    unfolding reg registered_under_Cons by simp
qed

lemma refs_ok_fresh:
  assumes "refs_ok w" and "map_of (rulebook w) e = Some rs"
  shows "length (objects w) \<notin> set rs"
proof
  assume "length (objects w) \<in> set rs"
  moreover have "(e, rs) \<in> set (rulebook w)"
    using assms(2) by (rule map_of_SomeD)
  ultimately have "length (objects w) < length (objects w)"
    using assms(1) unfolding refs_ok_def by blast
  then show False by simp
qed

lemma refs_ok_w0: "refs_ok w0"
  by (simp add: refs_ok_def w0_def)

lemma set_update_cases: "x \<in> set (AList.update k v al) \<Longrightarrow> x = (k, v) \<or> x \<in> set al"
  by (induction al) (auto split: if_splits)

lemma addrule_members:
  "(e, rs) \<in> set (addrule es r rb) \<Longrightarrow> x \<in> set rs \<Longrightarrow>
     x = r \<or> (\<exists>e' rs'. (e', rs') \<in> set rb \<and> x \<in> set rs')"
proof (induction es arbitrary: rb)
  case Nil
  then show ?case by auto
next
  case (Cons e0 es)
  let ?rb1 = "if map_of rb e0 = None then AList.update e0 [] rb else rb"
  have one: "x = r \<or> (\<exists>e' rs'. (e', rs') \<in> set rb \<and> x \<in> set rs')"
    if "(e', rs') \<in> set ?rb1" "x \<in> set rs'" for e' rs' x
    using that by (auto dest!: set_update_cases split: if_splits)
  have two: "x = r \<or> (\<exists>e' rs'. (e', rs') \<in> set rb \<and> x \<in> set rs')"
    if mem: "(e', rs') \<in> set (append_at e0 r ?rb1)" and x: "x \<in> set rs'" for e' rs' x
  proof (cases "map_of ?rb1 e0")
    case None
    with mem x one show ?thesis by (simp add: append_at_def)
  next
    case (Some old)
    then have old: "(e0, old) \<in> set ?rb1" by (rule map_of_SomeD)
    from mem Some have "(e', rs') = (e0, old @ [r]) \<or> (e', rs') \<in> set ?rb1"
      by (auto simp: append_at_def dest!: set_update_cases)
    then show ?thesis
    proof
      assume "(e', rs') = (e0, old @ [r])"
      with x have "x \<in> set old \<or> x = r" by auto
      then show ?thesis
      proof
        assume "x \<in> set old"
        with old show ?thesis by (rule one)
      next
        assume "x = r"
        then show ?thesis by simp
      qed
    next
      assume "(e', rs') \<in> set ?rb1"
      then show ?thesis using x by (rule one)
    qed
  qed
  from Cons.IH [of "append_at e0 r ?rb1"] Cons.prems two show ?case
    by (simp only: addrule.simps) blast
qed

lemma refs_ok_Rule_init: "refs_ok w \<Longrightarrow> refs_ok (snd (Rule_init c es m t msg w))"
  unfolding refs_ok_def Rule_init_def Let_def
  by (auto dest!: addrule_members simp: less_Suc_eq)

text \<open>
  C3. Registering a rule under \<^verbatim>\<open>.htm\<close> and \<^verbatim>\<open>.flsnp\<close> appends it to the sequence of
  each of the two extensions, a new sequence when there was none, and leaves the lookup
  of \<^verbatim>\<open>.fltoc\<close> as it was. A rule that is constructed for the two extensions is found by
  the lookups of \<^verbatim>\<open>.htm\<close> and of \<^verbatim>\<open>.flsnp\<close> and is not in the lookup of \<^verbatim>\<open>.fltoc\<close>.
  The lookup of an extension that no registration named is \<open>None\<close>.
\<close>

theorem register_htm_flsnp:
  "getrules (addrule [''.htm'', ''.flsnp''] r rb) ''.htm'' =
     Some ((case getrules rb ''.htm'' of None \<Rightarrow> [] | Some rs \<Rightarrow> rs) @ [r]) \<and>
   getrules (addrule [''.htm'', ''.flsnp''] r rb) ''.flsnp'' =
     Some ((case getrules rb ''.flsnp'' of None \<Rightarrow> [] | Some rs \<Rightarrow> rs) @ [r]) \<and>
   getrules (addrule [''.htm'', ''.flsnp''] r rb) ''.fltoc'' = getrules rb ''.fltoc'' \<and>
   (refs_ok w \<and> Rule_init c [''.htm'', ''.flsnp''] m t msg w = (self, w') \<longrightarrow>
      (\<exists>rs. getrules (rulebook w') ''.htm'' = Some rs \<and> self \<in> set rs) \<and>
      (\<exists>rs. getrules (rulebook w') ''.flsnp'' = Some rs \<and> self \<in> set rs) \<and>
      (\<forall>rs. getrules (rulebook w') ''.fltoc'' = Some rs \<longrightarrow> self \<notin> set rs)) \<and>
   ((\<forall>(es, r) \<in> set regs. e \<notin> set es) \<longrightarrow> getrules (registrations regs []) e = None)"
proof (intro conjI impI)
  show "getrules (addrule [''.htm'', ''.flsnp''] r rb) ''.htm'' =
     Some ((case getrules rb ''.htm'' of None \<Rightarrow> [] | Some rs \<Rightarrow> rs) @ [r])"
    unfolding getrules_def map_of_addrule by simp
  show "getrules (addrule [''.htm'', ''.flsnp''] r rb) ''.flsnp'' =
     Some ((case getrules rb ''.flsnp'' of None \<Rightarrow> [] | Some rs \<Rightarrow> rs) @ [r])"
    unfolding getrules_def map_of_addrule by simp
  show "getrules (addrule [''.htm'', ''.flsnp''] r rb) ''.fltoc'' = getrules rb ''.fltoc''"
    unfolding getrules_def map_of_addrule by simp
next
  assume a: "refs_ok w \<and> Rule_init c [''.htm'', ''.flsnp''] m t msg w = (self, w')"
  then have self: "self = length (objects w)"
    and rb: "rulebook w' = addrule [''.htm'', ''.flsnp''] self (rulebook w)"
    by (auto simp: Rule_init_def Let_def)
  show "\<exists>rs. getrules (rulebook w') ''.htm'' = Some rs \<and> self \<in> set rs"
    unfolding rb getrules_def map_of_addrule by simp
  show "\<exists>rs. getrules (rulebook w') ''.flsnp'' = Some rs \<and> self \<in> set rs"
    unfolding rb getrules_def map_of_addrule by simp
  show "\<forall>rs. getrules (rulebook w') ''.fltoc'' = Some rs \<longrightarrow> self \<notin> set rs"
    using a refs_ok_fresh [of w "''.fltoc''"]
    unfolding rb getrules_def map_of_addrule by (simp add: self)
next
  assume "\<forall>(es, r) \<in> set regs. e \<notin> set es"
  then show "getrules (registrations regs []) e = None"
    by (simp add: getrules_def map_of_registrations)
qed

theorem register_htm_flsnp_witness:
  "refs_ok w_first \<and>
   Rule_init Error_cls [''.htm'', ''.flsnp''] is_body has_h1 ''second'' w_first =
     (1, snd (Rule_init Error_cls [''.htm'', ''.flsnp''] is_body has_h1 ''second'' w_first)) \<and>
   getrules (rulebook (snd (Rule_init Error_cls [''.htm'', ''.flsnp''] is_body has_h1 ''second'' w_first)))
     ''.htm'' = Some [0, 1] \<and>
   getrules (rulebook (snd (Rule_init Error_cls [''.htm'', ''.flsnp''] is_body has_h1 ''second'' w_first)))
     ''.flsnp'' = Some [1] \<and>
   getrules (rulebook (snd (Rule_init Error_cls [''.htm'', ''.flsnp''] is_body has_h1 ''second'' w_first)))
     ''.fltoc'' = Some [0] \<and>
   ''.fltar'' \<notin> set [''.htm'', ''.flsnp''] \<and>
   getrules (registrations [([''.htm'', ''.flsnp''], 1::nat)] []) ''.fltar'' = None"
proof -
  have ok: "refs_ok w_first"
    by (simp add: refs_ok_def w_first_def w0_def Warning_def Rule_init_def Let_def append_at_def)
  have init: "Rule_init Error_cls [''.htm'', ''.flsnp''] is_body has_h1 ''second'' w_first =
     (1, snd (Rule_init Error_cls [''.htm'', ''.flsnp''] is_body has_h1 ''second'' w_first))"
    by (simp add: w_first_def w0_def Warning_def Rule_init_def Let_def)
  have regs: "\<forall>(es, r) \<in> set [([''.htm'', ''.flsnp''], 1::nat)]. ''.fltar'' \<notin> set es"
    by simp
  have old: "getrules (rulebook w_first) ''.htm'' = Some [0]" "getrules (rulebook w_first) ''.fltoc'' = Some [0]"
     "getrules (rulebook w_first) ''.flsnp'' = None"
    by (simp_all add: getrules_def w_first_def w0_def Warning_def Rule_init_def Let_def append_at_def)
  have rb: "rulebook (snd (Rule_init Error_cls [''.htm'', ''.flsnp''] is_body has_h1 ''second'' w_first))
      = addrule [''.htm'', ''.flsnp''] 1 (rulebook w_first)"
    by (simp add: w_first_def w0_def Warning_def Rule_init_def Let_def)
  show ?thesis
    using ok init regs
      register_htm_flsnp [where r = 1 and rb = "rulebook w_first" and w = w_first and c = Error_cls
        and m = is_body and t = has_h1 and msg = "''second''" and self = 1
        and w' = "snd (Rule_init Error_cls [''.htm'', ''.flsnp''] is_body has_h1 ''second'' w_first)"
        and regs = "[([''.htm'', ''.flsnp''], 1::nat)]" and e = "''.fltar''"]
    unfolding rb old
    by simp
qed

text \<open>
  C8. The lookup of an extension returns the rules registered under it in the order of
  the registrations, from an empty rulebook and from any other; one registration only
  appends to the sequence that was there.
\<close>

theorem register_order:
  "getrules (registrations regs []) e =
     (if registered_under e regs = [] then None else Some (registered_under e regs)) \<and>
   getrules (registrations regs rb) e =
     (if registered_under e regs = [] then getrules rb e
      else Some ((case getrules rb e of None \<Rightarrow> [] | Some rs \<Rightarrow> rs) @ registered_under e regs)) \<and>
   (getrules rb e = Some rs \<longrightarrow>
      getrules (addrule es r rb) e = Some (rs @ replicate (count_list es e) r))"
proof (intro conjI impI)
  show "getrules (registrations regs []) e =
     (if registered_under e regs = [] then None else Some (registered_under e regs))"
    unfolding getrules_def map_of_registrations registered_under_empty_iff by simp
  show "getrules (registrations regs rb) e =
     (if registered_under e regs = [] then getrules rb e
      else Some ((case getrules rb e of None \<Rightarrow> [] | Some rs \<Rightarrow> rs) @ registered_under e regs))"
    unfolding getrules_def map_of_registrations registered_under_empty_iff by simp
next
  assume "getrules rb e = Some rs"
  then show "getrules (addrule es r rb) e = Some (rs @ replicate (count_list es e) r)"
    unfolding getrules_def map_of_addrule by (simp add: count_list_0)
qed

theorem register_order_witness:
  "getrules [(''.htm'', [0::nat])] ''.htm'' = Some [0] \<and>
   getrules (addrule [''.flsnp'', ''.htm''] 1 [(''.htm'', [0::nat])]) ''.htm'' = Some [0, 1] \<and>
   getrules (registrations [([''.htm''], 5::nat), ([''.fltoc''], 3), ([''.flsnp'', ''.htm''], 4)] [])
     ''.htm'' = Some [5, 4]"
  using register_order [where rb = "[(''.htm'', [0::nat])]" and e = "''.htm''" and rs = "[0]"
      and es = "[''.flsnp'', ''.htm'']" and r = 1
      and regs = "[([''.htm''], 5::nat), ([''.fltoc''], 3), ([''.flsnp'', ''.htm''], 4)]"]
  by (simp add: getrules_def registered_under_def)

text \<open>
  C9. No lookup gives an empty sequence: not after any sequence of registrations from
  the empty rulebook, and a registration keeps it so in any rulebook.
\<close>

theorem no_empty_sequence:
  "getrules (registrations regs []) e \<noteq> Some [] \<and>
   ((\<forall>x. getrules rb x \<noteq> Some []) \<longrightarrow> (\<forall>x. getrules (addrule es r rb) x \<noteq> Some []))"
proof (intro conjI impI allI)
  show "getrules (registrations regs []) e \<noteq> Some []"
    unfolding getrules_def map_of_registrations registered_under_empty_iff [symmetric] by simp
next
  fix x
  assume "\<forall>x. getrules rb x \<noteq> Some []"
  then have "map_of rb x \<noteq> Some []"
    by (simp add: getrules_def)
  then show "getrules (addrule es r rb) x \<noteq> Some []"
    unfolding getrules_def map_of_addrule by (auto simp: count_list_0_iff)
qed

theorem no_empty_sequence_witness:
  "(\<forall>x. getrules [(''.htm'', [0::nat])] x \<noteq> Some []) \<and>
   (\<forall>x. getrules (addrule [''.fltoc''] 1 [(''.htm'', [0::nat])]) x \<noteq> Some []) \<and>
   getrules (addrule [''.fltoc''] 1 [(''.htm'', [0::nat])]) ''.fltoc'' = Some [1] \<and>
   getrules (addrule [''.fltoc''] 1 [(''.htm'', [0::nat])]) ''.props'' = None"
proof -
  have h: "\<forall>x. getrules [(''.htm'', [0::nat])] x \<noteq> Some []"
    by (simp add: getrules_def)
  show ?thesis
    using h no_empty_sequence [where rb = "[(''.htm'', [0::nat])]" and es = "[''.fltoc'']" and r = 1]
    by (simp add: getrules_def append_at_def)
qed

text \<open>
  C10. An extension that occurs several times in the list of one registration gets the
  rule once per occurrence: the lookup of a constructed rule's extension holds the new
  object as many times as the extension occurs in the list.
\<close>

theorem duplicate_extension:
  "(e \<in> set es \<longrightarrow>
      getrules (addrule es r rb) e =
        Some ((case getrules rb e of None \<Rightarrow> [] | Some rs \<Rightarrow> rs) @ replicate (count_list es e) r)) \<and>
   (refs_ok w \<and> Rule_init c es m t msg w = (self, w') \<and> e \<in> set es \<longrightarrow>
      (\<exists>rs. getrules (rulebook w') e = Some rs \<and> count_list rs self = count_list es e))"
proof (intro conjI impI)
  assume "e \<in> set es"
  then show "getrules (addrule es r rb) e =
        Some ((case getrules rb e of None \<Rightarrow> [] | Some rs \<Rightarrow> rs) @ replicate (count_list es e) r)"
    unfolding getrules_def map_of_addrule by simp
next
  assume a: "refs_ok w \<and> Rule_init c es m t msg w = (self, w') \<and> e \<in> set es"
  then have self: "self = length (objects w)"
    and rb: "rulebook w' = addrule es self (rulebook w)"
    by (auto simp: Rule_init_def Let_def)
  have old: "count_list (case map_of (rulebook w) e of None \<Rightarrow> [] | Some rs \<Rightarrow> rs) self = 0"
    using a refs_ok_fresh [of w e] by (auto simp: self count_list_0 split: option.splits)
  have "count_list (replicate k self) self = k" for k
    by (induction k) auto
  with old a show "\<exists>rs. getrules (rulebook w') e = Some rs \<and> count_list rs self = count_list es e"
    unfolding rb getrules_def map_of_addrule by simp
qed

theorem duplicate_extension_witness:
  "''.htm'' \<in> set [''.htm'', ''.fltoc'', ''.htm''] \<and> refs_ok w_first \<and>
   Rule_init Error_cls [''.htm'', ''.fltoc'', ''.htm''] is_body has_h1 ''second'' w_first =
     (1, snd (Rule_init Error_cls [''.htm'', ''.fltoc'', ''.htm''] is_body has_h1 ''second'' w_first)) \<and>
   getrules (addrule [''.htm'', ''.fltoc'', ''.htm''] (1::nat) (rulebook w_first)) ''.htm'' = Some [0, 1, 1] \<and>
   (\<exists>rs. getrules (rulebook (snd (Rule_init Error_cls [''.htm'', ''.fltoc'', ''.htm''] is_body has_h1
            ''second'' w_first))) ''.htm'' = Some rs \<and> count_list rs 1 = 2)"
proof -
  have ok: "refs_ok w_first"
    by (simp add: refs_ok_def w_first_def w0_def Warning_def Rule_init_def Let_def append_at_def)
  have init: "Rule_init Error_cls [''.htm'', ''.fltoc'', ''.htm''] is_body has_h1 ''second'' w_first =
     (1, snd (Rule_init Error_cls [''.htm'', ''.fltoc'', ''.htm''] is_body has_h1 ''second'' w_first))"
    by (simp add: w_first_def w0_def Warning_def Rule_init_def Let_def)
  have mem: "''.htm'' \<in> set [''.htm'', ''.fltoc'', ''.htm'']"
    by simp
  have old: "getrules (rulebook w_first) ''.htm'' = Some [0]"
    by (simp add: getrules_def w_first_def w0_def Warning_def Rule_init_def Let_def append_at_def)
  have cnt: "count_list [''.htm'', ''.fltoc'', ''.htm''] ''.htm'' = 2"
    by simp
  show ?thesis
    using ok init mem
      duplicate_extension [where e = "''.htm''" and es = "[''.htm'', ''.fltoc'', ''.htm'']"
        and r = 1 and rb = "rulebook w_first" and w = w_first and c = Error_cls
        and m = is_body and t = has_h1 and msg = "''second''" and self = 1
        and w' = "snd (Rule_init Error_cls [''.htm'', ''.fltoc'', ''.htm''] is_body has_h1 ''second'' w_first)"]
    unfolding old cnt
    by (simp add: numeral_2_eq_2)
qed

subsection \<open>Rule construction\<close>

text \<open>
  C6 as stated fails: the construction of a rule with an empty list of extensions
  completes, the object exists and the rulebook stays empty.
\<close>

theorem empty_extensions_accepted:
  "Error [] is_body has_h1 ''no h1'' w0 =
     (0, w0\<lparr>objects := [\<lparr>rule_cls = Error_cls, rule_match = is_body, rule_test = has_h1,
                          rule_message = ''no h1''\<rparr>]\<rparr>) \<and>
   rulebook (snd (Error [] is_body has_h1 ''no h1'' w0)) = []"
  by (simp add: Error_def Rule_init_def Let_def w0_def)

text \<open>
  C6, amended. Construction checks nothing: it returns a new object that holds the class,
  \<open>match\<close>, \<open>test\<close> and \<open>message\<close> as given and registers it under the extensions of the
  list; with an empty list the rulebook is unchanged.
\<close>

theorem construction_validates_nothing:
  "fst (Rule_init c es m t msg w) = length (objects w) \<and>
   objects (snd (Rule_init c es m t msg w)) =
     objects w @ [\<lparr>rule_cls = c, rule_match = m, rule_test = t, rule_message = msg\<rparr>] \<and>
   rulebook (snd (Rule_init c es m t msg w)) = addrule es (length (objects w)) (rulebook w) \<and>
   Rule_init c [] m t msg w =
     (length (objects w),
      w\<lparr>objects := objects w @ [\<lparr>rule_cls = c, rule_match = m, rule_test = t, rule_message = msg\<rparr>]\<rparr>)"
  by (simp add: Rule_init_def Let_def)

subsection \<open>Eligible rule modules\<close>

text \<open>The two patterns of the module, parsed; both are unchanged by \<open>normcase\<close>.\<close>

lemma translate_RULE_MODULE_PATTERN:
  "translate RULE_MODULE_PATTERN =
     [Class True ''_'', Class True ''_'', Star, Lit CHR ''.'', Lit CHR ''p'', Lit CHR ''y'']"
  by (simp add: RULE_MODULE_PATTERN_def bracket_def)

lemma normcase_RULE_MODULE_PATTERN: "normcase os RULE_MODULE_PATTERN = RULE_MODULE_PATTERN"
  by (cases os) (simp_all add: RULE_MODULE_PATTERN_def lower_def)

lemma translate_py: "translate ''*.py'' = [Star, Lit CHR ''.'', Lit CHR ''p'', Lit CHR ''y'']"
  by simp

lemma normcase_py: "normcase os ''*.py'' = ''*.py''"
  by (cases os) (simp_all add: lower_def)

text \<open>A star followed by literal characters matches the strings that end in them.\<close>

lemma matches_literals: "matches (map Lit l) s \<longleftrightarrow> s = l"
proof (induction l arbitrary: s)
  case Nil
  show ?case by simp
next
  case (Cons d l)
  then show ?case by (cases s) auto
qed

lemma matches_Star_literals: "matches (Star # map Lit l) s \<longleftrightarrow> suffix l s"
proof (induction s)
  case Nil
  show ?case using matches_literals [of l "[]"] by auto
next
  case (Cons c s)
  show ?case
    using Cons matches_literals [of l "c # s"] by (auto simp: suffix_Cons)
qed

lemma matches_rule_module:
  "matches [Class True ''_'', Class True ''_'', Star, Lit CHR ''.'', Lit CHR ''p'', Lit CHR ''y''] s \<longleftrightarrow>
     5 \<le> length s \<and> s ! 0 \<noteq> CHR ''_'' \<and> s ! 1 \<noteq> CHR ''_'' \<and> suffix ''.py'' s"
proof (cases s)
  case Nil
  then show ?thesis by simp
next
  case s1: (Cons a s')
  show ?thesis
  proof (cases s')
    case Nil
    with s1 show ?thesis by simp
  next
    case (Cons b rest)
    have tail: "matches [Star, Lit CHR ''.'', Lit CHR ''p'', Lit CHR ''y''] rest \<longleftrightarrow> suffix ''.py'' rest"
      using matches_Star_literals [of "''.py''" rest] by simp
    have len: "suffix ''.py'' rest \<Longrightarrow> 3 \<le> length rest"
      using suffix_length_le [of "''.py''" rest] by simp
    have suf: "3 \<le> length rest \<Longrightarrow> suffix ''.py'' (a # b # rest) \<longleftrightarrow> suffix ''.py'' rest"
      by (auto simp: suffix_Cons)
    show ?thesis
      unfolding s1 Cons using tail len suf by auto
  qed
qed

text \<open>For a directory path without wildcards, the glob looks into that directory.\<close>

lemma glob_literal:
  "\<not> has_magic_dir dir \<Longrightarrow>
     glob w dir pat = map (\<lambda>name. dir @ [name]) (glob1 (platform w) (listdir w dir) pat)"
  by (simp add: glob_def glob_dirs_def)


lemma rule_module_iff:
  assumes "\<not> has_magic_dir dir"
  shows "dir @ [name] \<in> set (glob w dir RULE_MODULE_PATTERN) \<longleftrightarrow>
     name \<in> set (listdir w dir) \<and> \<not> ishidden name \<and>
     5 \<le> length name \<and>
     normcase (platform w) name ! 0 \<noteq> CHR ''_'' \<and>
     normcase (platform w) name ! 1 \<noteq> CHR ''_'' \<and>
     suffix ''.py'' (normcase (platform w) name)"
proof -
  have len: "length (normcase os s) = length s" for os s
    by (cases os) simp_all
  have hid: "\<not> ishidden RULE_MODULE_PATTERN"
    by (simp add: ishidden_def RULE_MODULE_PATTERN_def)
  have "dir @ [name] \<in> set (glob w dir RULE_MODULE_PATTERN) \<longleftrightarrow>
      name \<in> set (glob1 (platform w) (listdir w dir) RULE_MODULE_PATTERN)"
    using assms by (auto simp: glob_literal)
  also have "\<dots> \<longleftrightarrow> name \<in> set (listdir w dir) \<and> \<not> ishidden name \<and>
      matches (translate RULE_MODULE_PATTERN) (normcase (platform w) name)"
    using hid by (auto simp: glob1_def fnmatch_filter_def normcase_RULE_MODULE_PATTERN)
  finally show ?thesis
    unfolding translate_RULE_MODULE_PATTERN matches_rule_module len by simp
qed


text \<open>The folders of the examples have no wildcard in their paths.\<close>

lemma literal_dirs: "\<not> has_magic_dir userdir" "\<not> has_magic_dir defaultdir"
  by (simp_all add: has_magic_dir_def has_magic_def userdir_def defaultdir_def)

lemmas glob_eval = glob_literal [OF literal_dirs(1)] glob_literal [OF literal_dirs(2)]
  glob_literal [OF literal_dirs(1) [unfolded userdir_def]]
  glob_literal [OF literal_dirs(2) [unfolded defaultdir_def]]
  glob1_def listdir_def fnmatch_filter_def ishidden_def lower_def
  translate_RULE_MODULE_PATTERN normcase_RULE_MODULE_PATTERN translate_py normcase_py

text \<open>
  C5 as stated fails: \<^verbatim>\<open>x.py\<close> and \<^verbatim>\<open>a_rule.py\<close> end in \<^verbatim>\<open>.py\<close> and do not begin with
  an underscore, and the glob of rule modules in a folder that holds just these two is
  empty.
\<close>

theorem short_names_not_eligible:
  "listdir w_short userdir = [''x.py'', ''a_rule.py''] \<and>
   suffix ''.py'' ''x.py'' \<and> hd ''x.py'' \<noteq> CHR ''_'' \<and>
   suffix ''.py'' ''a_rule.py'' \<and> hd ''a_rule.py'' \<noteq> CHR ''_'' \<and>
   glob w_short userdir RULE_MODULE_PATTERN = []"
proof -
  have l: "listdir w_short userdir = [''x.py'', ''a_rule.py'']"
    by (simp add: listdir_def w_short_def w0_def)
  have p: "platform w_short = Windows"
    by (simp add: w_short_def w0_def)
  have "glob w_short userdir RULE_MODULE_PATTERN = []"
    unfolding glob_literal [OF literal_dirs(1)] l p
    by (simp add: glob1_def fnmatch_filter_def ishidden_def lower_def
        translate_RULE_MODULE_PATTERN normcase_RULE_MODULE_PATTERN)
  with l show ?thesis
    by (simp add: suffix_def)
qed

text \<open>
  C5, amended. In a directory whose path has no wildcard character (\<^verbatim>\<open>*\<close>, \<^verbatim>\<open>?\<close>, \<^verbatim>\<open>[\<close>), a
  name is enumerated as a rule module exactly when it does not begin with a dot, has at
  least five characters, neither of its first two characters is an underscore, and it
  ends in \<^verbatim>\<open>.py\<close>; on Windows the last three conditions are on the name in lower case.
\<close>

theorem eligible_rule_module:
  "\<not> has_magic_dir dir \<Longrightarrow>
   dir @ [name] \<in> set (glob w dir RULE_MODULE_PATTERN) \<longleftrightarrow>
     name \<in> set (listdir w dir) \<and> \<not> ishidden name \<and>
     5 \<le> length name \<and>
     normcase (platform w) name ! 0 \<noteq> CHR ''_'' \<and>
     normcase (platform w) name ! 1 \<noteq> CHR ''_'' \<and>
     suffix ''.py'' (normcase (platform w) name)"
  by (rule rule_module_iff)

theorem eligible_rule_module_witness:
  "\<not> has_magic_dir userdir \<and>
   ''callout.py'' \<in> set (listdir w_seeded userdir) \<and>
   userdir @ [''callout.py''] \<in> set (glob w_seeded userdir RULE_MODULE_PATTERN) \<and>
   ''_util.py'' \<in> set (listdir w_seeded userdir) \<and>
   userdir @ [''_util.py''] \<notin> set (glob w_seeded userdir RULE_MODULE_PATTERN)"
proof -
  have l: "listdir w_seeded userdir = [''callout.py'', ''_util.py'']"
    by (simp add: listdir_def w_seeded_def w0_def userdir_def defaultdir_def)
  have p: "platform w_seeded = Windows"
    by (simp add: w_seeded_def w0_def)
  have s: "suffix ''.py'' ''callout.py''"
    by (simp add: suffix_def)
  show ?thesis
    using literal_dirs(1)
      eligible_rule_module [OF literal_dirs(1), of "''callout.py''" w_seeded]
      eligible_rule_module [OF literal_dirs(1), of "''_util.py''" w_seeded] s
    by (simp add: l p ishidden_def lower_def)
qed

subsection \<open>The bootstrap check\<close>










text \<open>The check on the fresh install of the examples, and on the edited file.\<close>

lemma install_not_seeded: "\<not> seeded w_install userdir"
  by (simp add: seeded_def isdir_def w_install_def w0_def userdir_def defaultdir_def)


lemma seeded_isdir: "isdir w_seeded userdir"
  by (simp add: isdir_def w_seeded_def w0_def userdir_def defaultdir_def)

lemma check_install: "check userdir defaultdir False w_install = (None, w_seeded)"
proof -
  have mk: "makedirs userdir w_install = (None, w_install\<lparr>fs := fs w_install @ [(userdir, Dir [])]\<rparr>)"
    by (simp add: makedirs_def w_install_def w0_def userdir_def defaultdir_def)
  have g: "glob (w_install\<lparr>fs := fs w_install @ [(userdir, Dir [])]\<rparr>) defaultdir ''*.py'' =
      [defaultdir @ [''callout.py''], defaultdir @ [''_util.py'']]"
    by (simp add: w_install_def w0_def glob_eval defaultdir_def)
  have cp: "copy_each [defaultdir @ [''callout.py''], defaultdir @ [''_util.py'']] userdir
      (w_install\<lparr>fs := fs w_install @ [(userdir, Dir [])]\<rparr>) = (None, w_seeded)"
    by (simp add: shutil_copy_def read_file_def w_install_def w_seeded_def w0_def userdir_def
        defaultdir_def)
  show ?thesis
    unfolding check_def using install_not_seeded
    by (simp add: mk g cp seeded_isdir del: copy_each.simps)
qed





subsection \<open>The loader\<close>

text \<open>The bootstrap check does not touch the rulebook.\<close>

lemma makedirs_rulebook: "makedirs p w = (r, w') \<Longrightarrow> rulebook w' = rulebook w"
  by (auto simp: makedirs_def split: option.splits fsnode.splits)

lemma shutil_copy_rulebook: "shutil_copy src dst w = (r, w') \<Longrightarrow> rulebook w' = rulebook w"
  by (auto simp: shutil_copy_def split: option.splits fsnode.splits sum.splits entry.splits if_splits)

lemma copy_each_rulebook: "copy_each srcs user w = (r, w') \<Longrightarrow> rulebook w' = rulebook w"
proof (induction srcs arbitrary: w)
  case Nil
  then show ?case by simp
next
  case (Cons src srcs)
  obtain r2 w2 where first: "shutil_copy src user w = (r2, w2)"
    by (cases "shutil_copy src user w")
  show ?case
  proof (cases r2)
    case None
    with Cons.prems first have "copy_each srcs user w2 = (r, w')" by simp
    then have "rulebook w' = rulebook w2" by (rule Cons.IH)
    with shutil_copy_rulebook [OF first] show ?thesis by simp
  next
    case (Some e)
    with Cons.prems first have "w' = w2" by simp
    with shutil_copy_rulebook [OF first] show ?thesis by simp
  qed
qed

lemma check_rulebook:
  assumes "check user dflt v w = (r, w')"
  shows "rulebook w' = rulebook w"
proof (cases "seeded w user")
  case True
  with assms show ?thesis
    by (auto simp: check_def seeded_def split: if_splits)
next
  case False
  obtain r1 wm where mk: "makedirs user w = (r1, wm)"
    by (cases "makedirs user w")
  note m = makedirs_rulebook [OF mk]
  show ?thesis
  proof (cases r1)
    case (Some e)
    with assms False mk m show ?thesis
      by (auto simp: check_def)
  next
    case None
    obtain r2 wc where cp: "copy_each (glob wm dflt ''*.py'') user wm = (r2, wc)"
      by (cases "copy_each (glob wm dflt ''*.py'') user wm")
    note c = copy_each_rulebook [OF cp]
    from assms False mk None cp have "w' = wc"
      by (cases r2) (auto simp: check_def split: if_splits)
    with c m show ?thesis by simp
  qed
qed

text \<open>The check and the load on the examples.\<close>

lemma check_short: "check userdir defaultdir False w_short = (None, w_short)"
proof -
  have g: "glob w_short userdir RULE_MODULE_PATTERN = []"
    by (simp add: w_short_def w0_def userdir_def glob_eval)
  have gd: "glob w_short defaultdir ''*.py'' = []"
    by (simp add: w_short_def w0_def userdir_def defaultdir_def glob_eval)
  have sd: "isdir w_short userdir"
    by (simp add: isdir_def w_short_def w0_def)
  have mk: "makedirs userdir w_short = (None, w_short)"
    using sd by (simp add: makedirs_def isdir_def split: option.splits fsnode.splits)
  show ?thesis
    by (simp add: check_def seeded_def g mk gd sd)
qed

lemma load_install: "load False w_install = (None, w_loaded)"
proof -
  have env: "map_of (environ w_install) ''APPDATA'' = Some ''C:/AppData''"
    by (simp add: w_install_def w0_def)
  have up: "userpath_of ''C:/AppData'' = userdir" "defaultpath_of w_install = defaultdir"
    by (simp_all add: userpath_of_def userdir_def defaultpath_of_def defaultdir_def w_install_def w0_def)
  have g: "glob w_seeded userdir RULE_MODULE_PATTERN = [userdir @ [''callout.py'']]"
    by (simp add: w_seeded_def w0_def glob_eval userdir_def defaultdir_def)
  have r: "read_file w_seeded (userdir @ [''callout.py'']) = Inr callout"
    by (simp add: read_file_def w_seeded_def w0_def userdir_def defaultdir_def)
  have x: "exec_module callout w_seeded = (None, w_loaded)"
    by (simp add: callout_def w_loaded_def w_seeded_def w0_def Rule_init_def Let_def append_at_def)
  have rb: "rulebook w_loaded \<noteq> []"
    by (simp add: w_loaded_def)
  show ?thesis
    by (simp add: load_def env up check_install g r x rb)
qed

text \<open>
  C4. \<open>load\<close> never returns normally with an empty rulebook: when the check and every
  module have run and the rulebook is empty, it raises \<^verbatim>\<open>AssertionError\<close>; so it does
  when the rulebook was empty before and the glob of the user folder yields no module.
\<close>

theorem load_empty_registry:
  "(fst (load v w) = None \<longrightarrow> rulebook (snd (load v w)) \<noteq> []) \<and>
   (map_of (environ w) ''APPDATA'' = Some a \<and>
    check (userpath_of a) (defaultpath_of w) v w = (None, wa) \<and>
    exec_each (glob wa (userpath_of a) RULE_MODULE_PATTERN) (userpath_of a) wa = (None, wb) \<and>
    rulebook wb = [] \<longrightarrow>
      load v w = (Some AssertionError, wb)) \<and>
   (rulebook w = [] \<and> map_of (environ w) ''APPDATA'' = Some a \<and>
    check (userpath_of a) (defaultpath_of w) v w = (None, wa) \<and>
    glob wa (userpath_of a) RULE_MODULE_PATTERN = [] \<longrightarrow>
      load v w = (Some AssertionError, wa))"
proof (intro conjI impI)
  have "rulebook w' \<noteq> []" if "load v w = (None, w')" for w'
    using that by (auto simp: load_def split: option.splits prod.splits if_splits)
  moreover assume "fst (load v w) = None"
  ultimately show "rulebook (snd (load v w)) \<noteq> []"
    by (simp add: prod_eq_iff)
next
  assume "map_of (environ w) ''APPDATA'' = Some a \<and>
    check (userpath_of a) (defaultpath_of w) v w = (None, wa) \<and>
    exec_each (glob wa (userpath_of a) RULE_MODULE_PATTERN) (userpath_of a) wa = (None, wb) \<and>
    rulebook wb = []"
  then show "load v w = (Some AssertionError, wb)"
    by (simp add: load_def)
next
  assume a: "rulebook w = [] \<and> map_of (environ w) ''APPDATA'' = Some a \<and>
    check (userpath_of a) (defaultpath_of w) v w = (None, wa) \<and>
    glob wa (userpath_of a) RULE_MODULE_PATTERN = []"
  then have "rulebook wa = []"
    using check_rulebook [of "userpath_of a" "defaultpath_of w" v w None wa] by simp
  with a show "load v w = (Some AssertionError, wa)"
    by (simp add: load_def)
qed

theorem load_empty_registry_witness:
  "rulebook w_short = [] \<and> map_of (environ w_short) ''APPDATA'' = Some ''C:/AppData'' \<and>
   check (userpath_of ''C:/AppData'') (defaultpath_of w_short) False w_short = (None, w_short) \<and>
   glob w_short (userpath_of ''C:/AppData'') RULE_MODULE_PATTERN = [] \<and>
   exec_each [] (userpath_of ''C:/AppData'') w_short = (None, w_short) \<and>
   load False w_short = (Some AssertionError, w_short) \<and>
   load False w_install = (None, w_loaded) \<and> rulebook w_loaded = [(''.props'', [0])]"
proof -
  have env: "map_of (environ w_short) ''APPDATA'' = Some ''C:/AppData''"
    by (simp add: w_short_def w0_def)
  have rb: "rulebook w_short = []"
    by (simp add: w_short_def w0_def)
  have up: "userpath_of ''C:/AppData'' = userdir" "defaultpath_of w_short = defaultdir"
    by (simp_all add: userpath_of_def userdir_def defaultpath_of_def defaultdir_def w_short_def w0_def)
  have g: "glob w_short userdir RULE_MODULE_PATTERN = []"
    by (simp add: w_short_def w0_def userdir_def glob_eval)
  have l: "rulebook w_loaded = [(''.props'', [0])]"
    by (simp add: w_loaded_def)
  show ?thesis
    using env rb g check_short load_install l
      load_empty_registry [of False w_short "''C:/AppData''" w_short w_short]
      load_empty_registry [of False w_install]
    by (simp add: up)
qed

end
